theory Spec2Isabelle
  imports Main "HOL-Library.Sublist"
begin

section \<open>Data model of \<open>src/DeleteUnusedAssets.tsx\<close>\<close>

text \<open>
  The component keeps its data in React state and talks to one external collaborator, the
  dataset client. The model is a shallow embedding: every handler of the component is a
  HOL function from the state before to the state after, together with the effects it
  had on the outside (queries issued, transactions opened, console lines, callbacks).
  A handler is one step of the model, also where it awaits the client. The calls of the
  callbacks \<open>onError\<close> and \<open>onComplete\<close> are recorded; what the call of \<open>onComplete\<close> does,
  return or throw, is an argument of the deletion handler, since an exception of it is
  caught there. (\<open>onError\<close> is called last in a \<open>catch\<close> block: an exception of it changes
  neither the state nor the calls made.)

  JavaScript strings are modelled as \<open>string\<close>, one \<open>char\<close> per UTF-16 code unit; the
  model therefore covers strings whose code units are below 256.
\<close>

datatype asset_type = Image_asset | File_asset
  \<comment> \<open>\<open>'sanity.imageAsset' | 'sanity.fileAsset'\<close>\<close>

type_synonym js_date = "int option"
  \<comment> \<open>the time value of a \<open>Date\<close> object in milliseconds; \<open>None\<close> is an Invalid Date (NaN)\<close>

record asset_info =
  asset_id :: string                 \<comment> \<open>\<open>_id\<close>\<close>
  asset_type :: asset_type           \<comment> \<open>\<open>_type\<close>\<close>
  originalFilename :: "string option"
  url :: string
  asset_size :: "nat option"         \<comment> \<open>\<open>size\<close>; read as \<open>asset.size || 0\<close>, so it may be missing\<close>
  mimeType :: string
  createdAt :: js_date               \<comment> \<open>the value of \<open>new Date(asset._createdAt)\<close>\<close>
  updatedAt :: string                \<comment> \<open>\<open>_updatedAt\<close>\<close>
  extension :: "string option"

datatype asset_kind = Image | File
  \<comment> \<open>\<open>'image' | 'file'\<close>, the members of the \<open>assetTypes\<close> option\<close>

record props =
  assetTypes :: "asset_kind list"
  olderThan :: "js_date option"      \<comment> \<open>\<open>None\<close> when the option is not given\<close>
  excludePatterns :: "string list"
  batchSize :: nat                   \<comment> \<open>a whole number of identifiers; 0 is not excluded\<close>
  dryRun :: bool
  maxAssets :: nat

text \<open>A thrown value: an \<open>Error\<close> object with its message, or anything else.\<close>

datatype thrown = Error_obj string | Non_error

definition error_message :: "thrown \<Rightarrow> string \<Rightarrow> string" where
  \<comment> \<open>\<open>error instanceof Error ? error.message : fallback\<close>\<close>
  "error_message e fallback = (case e of Error_obj m \<Rightarrow> m | Non_error \<Rightarrow> fallback)"

datatype filter_type = All_types | Only_image | Only_file
  \<comment> \<open>\<open>'all' | 'image' | 'file'\<close>\<close>

text \<open>
  The status line. Its texts are template strings, some of them through
  \<open>formatFileSize\<close> (floating point); a constructor stands for the template and carries
  the numbers and strings put into it.
\<close>

datatype message =
    No_message
  | Msg_scanning
  | Msg_fetching
  | Msg_checking_references
  | Msg_checking_complex
  | Msg_identifying
  | Msg_found nat nat
  | Msg_scan_error string
  | Msg_deleted_progress nat nat
  | Msg_dry_run_done nat nat
  | Msg_deleted_done nat nat nat
  | Msg_delete_error string

record state =
  unusedAssets :: "asset_info list"
  selectedAssets :: "string list"
    \<comment> \<open>a JavaScript \<open>Set\<close>: its members in insertion order, without repetition\<close>
  isScanning :: bool
  isDeleting :: bool
  showConfirmDialog :: bool
  scanProgress :: nat
  message :: message
  filterType :: filter_type
  filterSize :: string
  filterAge :: string
  totalAssets :: nat
  totalSize :: nat

definition initial_state :: state where
  "initial_state =
     \<lparr>unusedAssets = [], selectedAssets = [], isScanning = False, isDeleting = False,
      showConfirmDialog = False, scanProgress = 0, message = No_message,
      filterType = All_types, filterSize = [], filterAge = [], totalAssets = 0,
      totalSize = 0\<rparr>"

subsection \<open>The dataset client and the effects of a handler\<close>

datatype query =
    All_assets_query string nat      \<comment> \<open>\<open>*[typeFilter][0...maxAssets] {...}\<close>\<close>
  | Referenced_assets_query string   \<comment> \<open>\<open>*[references(*[typeFilter]._id)] {...}\<close>\<close>
  | Complex_refs_query               \<comment> \<open>\<open>*[defined(body) || defined(content) || defined(blocks)] {...}\<close>\<close>

type_synonym ref_doc = "string list option"
  \<comment> \<open>\<open>doc.referencedAssets\<close>, possibly missing\<close>

record complex_doc =
  complexRefs :: "string option list option"
  contentRefs :: "string option list option"
  blockRefs :: "string option list option"

text \<open>
  What the client does with one delete transaction: the commit succeeds, the commit
  rejects (inside the per-batch guard), or building the transaction throws
  (\<open>client.transaction()\<close> or \<open>transaction.delete(id)\<close>, outside the per-batch guard).
\<close>

datatype txn_outcome = Committed | Commit_failed thrown | Build_failed thrown

record client =
  fetch_all_assets :: "string \<Rightarrow> nat \<Rightarrow> thrown + asset_info list"
  fetch_referenced :: "string \<Rightarrow> thrown + ref_doc list"
  fetch_complex :: "thrown + complex_doc list"
  transaction :: "nat \<Rightarrow> string list \<Rightarrow> txn_outcome"
    \<comment> \<open>the outcome of the transaction opened after \<open>n\<close> earlier ones of the same run\<close>

datatype callback = OnError string | OnComplete nat nat "string list"
  \<comment> \<open>\<open>onError?.(message)\<close> and \<open>onComplete?.({deleted, savedSpace, errors})\<close>\<close>

record effects =
  queries :: "query list"               \<comment> \<open>the calls of \<open>client.fetch\<close>, in order\<close>
  transactions :: "string list list"    \<comment> \<open>the batches a transaction was opened for\<close>
  console :: "string list list"         \<comment> \<open>the batches printed by the dry run\<close>
  callbacks :: "callback list"

definition no_effects :: effects where
  "no_effects = \<lparr>queries = [], transactions = [], console = [], callbacks = []\<rparr>"

section \<open>Exclude patterns\<close>

text \<open>
  \<open>isExcluded\<close> turns a pattern into a regular expression,
  \<open>new RegExp(pattern.replace(/\*/g, '.*'), 'i')\<close>, and tests it on the file name and on the
  identifier. The pattern is not escaped: its other characters mean what they mean in a
  regular expression. The model interprets the expressions made of literal characters,
  \<open>.\<close>, \<open>.*\<close> and groups \<open>( )\<close> of these. A group without a quantifier only brackets a
  part of the sequence, so the expression is the sequence of its atoms; the parser
  counts the open groups. Every other source (an unbalanced bracket among them) is
  handed to the parameter \<open>lib\<close>, which stands for the rest of JavaScript's \<open>RegExp\<close>:
  it throws (a \<open>SyntaxError\<close>) or returns the test of the expression.
\<close>

type_synonym regexp_lib = "string \<Rightarrow> thrown + (string \<Rightarrow> bool)"

fun replace_star :: "string \<Rightarrow> string" where
  \<comment> \<open>\<open>pattern.replace(/\*/g, '.*')\<close>\<close>
  "replace_star [] = []"
| "replace_star (c # cs) =
     (if c = CHR ''*'' then CHR ''.'' # CHR ''*'' # replace_star cs else c # replace_star cs)"

definition syntax_character :: "char \<Rightarrow> bool" where
  \<comment> \<open>the characters with a meaning of their own in a pattern: \<open>^ $ \ . * + ? ( ) [ ] { } |\<close>\<close>
  "syntax_character c \<longleftrightarrow>
     c \<in> set [CHR ''^'', CHR ''$'', CHR 0x5C, CHR ''.'', CHR ''*'', CHR ''+'', CHR ''?'',
              CHR ''('', CHR '')'', CHR ''['', CHR '']'', CHR ''{'', CHR ''}'', CHR ''|'']"

datatype atom = Lit char | Any_char | Any_star
  \<comment> \<open>a pattern character, \<open>.\<close> and \<open>.*\<close>\<close>

fun regexp_parse :: "nat \<Rightarrow> string \<Rightarrow> atom list option" where
  \<comment> \<open>the atoms of a source, read inside \<open>depth\<close> open groups\<close>
  "regexp_parse depth [] = (if depth = 0 then Some [] else None)"
| "regexp_parse depth (c # cs) =
     (if c = CHR ''.'' then
        (case cs of
           [] \<Rightarrow> map_option ((#) Any_char) (regexp_parse depth [])
         | d # ds \<Rightarrow>
             if d = CHR ''*'' then map_option ((#) Any_star) (regexp_parse depth ds)
             else map_option ((#) Any_char) (regexp_parse depth cs))
      else if c = CHR ''('' then regexp_parse (Suc depth) cs
      else if c = CHR '')'' then
        (case depth of 0 \<Rightarrow> None | Suc outer \<Rightarrow> regexp_parse outer cs)
      else if syntax_character c then None
      else map_option ((#) (Lit c)) (regexp_parse depth cs))"

definition canonicalize :: "char \<Rightarrow> char" where
  \<comment> \<open>the flag \<open>i\<close>: a code unit is compared through its upper case. Below 256 the letters
      with an upper case below 256 are \<open>a\<close> to \<open>z\<close> and 0xE0 to 0xFE without 0xF7, and the
      upper case clears the bit of value 32.\<close>
  "canonicalize c =
     (let n = (of_char c :: nat)
      in if (97 \<le> n \<and> n \<le> 122) \<or> (224 \<le> n \<and> n \<le> 254 \<and> n \<noteq> 247)
         then (case c of Char b0 b1 b2 b3 b4 b5 b6 b7 \<Rightarrow> Char b0 b1 b2 b3 b4 False b6 b7)
         else c)"

definition line_terminator :: "char \<Rightarrow> bool" where
  \<comment> \<open>\<open>.\<close> matches every code unit but a line terminator; below 256 these are LF and CR\<close>
  "line_terminator c \<longleftrightarrow> c = CHR 0x0A \<or> c = CHR 0x0D"

fun match_here :: "atom list \<Rightarrow> string \<Rightarrow> bool" where
  \<comment> \<open>the expression matches a prefix of the string\<close>
  "match_here [] s = True"
| "match_here (Lit c # r) [] = False"
| "match_here (Lit c # r) (x # xs) = (canonicalize x = canonicalize c \<and> match_here r xs)"
| "match_here (Any_char # r) [] = False"
| "match_here (Any_char # r) (x # xs) = (\<not> line_terminator x \<and> match_here r xs)"
| "match_here (Any_star # r) [] = match_here r []"
| "match_here (Any_star # r) (x # xs) =
     (match_here r (x # xs) \<or> (\<not> line_terminator x \<and> match_here (Any_star # r) xs))"

fun regexp_test :: "atom list \<Rightarrow> string \<Rightarrow> bool" where
  \<comment> \<open>\<open>regex.test(s)\<close> without the flags \<open>g\<close> and \<open>y\<close>: a match starting anywhere\<close>
  "regexp_test r [] = match_here r []"
| "regexp_test r (x # xs) = (match_here r (x # xs) \<or> regexp_test r xs)"

definition new_RegExp_i :: "regexp_lib \<Rightarrow> string \<Rightarrow> thrown + (string \<Rightarrow> bool)" where
  \<comment> \<open>\<open>new RegExp(source, 'i')\<close>, as its \<open>test\<close> function\<close>
  "new_RegExp_i lib source =
     (case regexp_parse 0 source of Some r \<Rightarrow> Inr (regexp_test r) | None \<Rightarrow> lib source)"

fun some_pattern :: "regexp_lib \<Rightarrow> string \<Rightarrow> string \<Rightarrow> string list \<Rightarrow> thrown + bool" where
  \<comment> \<open>\<open>excludePatterns.some(pattern => ...)\<close>: the patterns in order, up to the first hit\<close>
  "some_pattern lib filename aid [] = Inr False"
| "some_pattern lib filename aid (pattern # rest) =
     (case new_RegExp_i lib (replace_star pattern) of
        Inl e \<Rightarrow> Inl e
      | Inr regex \<Rightarrow>
          if regex filename \<or> regex aid then Inr True
          else some_pattern lib filename aid rest)"

definition filename_of :: "asset_info \<Rightarrow> string" where
  \<comment> \<open>\<open>asset.originalFilename || ''\<close>\<close>
  "filename_of asset = (case originalFilename asset of None \<Rightarrow> [] | Some f \<Rightarrow> f)"

definition isExcluded :: "regexp_lib \<Rightarrow> string list \<Rightarrow> asset_info \<Rightarrow> thrown + bool" where
  "isExcluded lib patterns asset =
     (if length patterns = 0 then Inr False
      else some_pattern lib (filename_of asset) (asset_id asset) patterns)"

section \<open>The scan\<close>

definition date_less :: "js_date \<Rightarrow> js_date \<Rightarrow> bool" where
  \<comment> \<open>\<open><\<close> on two dates compares their time values; a comparison with NaN is false\<close>
  "date_less a b = (case a of None \<Rightarrow> False | Some x \<Rightarrow> (case b of None \<Rightarrow> False | Some y \<Rightarrow> x < y))"

definition isOlderThan :: "js_date option \<Rightarrow> asset_info \<Rightarrow> bool" where
  "isOlderThan cutoff asset =
     (case cutoff of None \<Rightarrow> True | Some d \<Rightarrow> date_less (createdAt asset) d)"

definition type_filter :: "asset_kind list \<Rightarrow> string" where
  "type_filter kinds =
     (if Image \<in> set kinds \<and> File \<in> set kinds
        then ''_type in [\"sanity.imageAsset\", \"sanity.fileAsset\"]''
      else if Image \<in> set kinds then ''_type == \"sanity.imageAsset\"''
      else ''_type == \"sanity.fileAsset\"'')"

definition size_or_0 :: "asset_info \<Rightarrow> nat" where
  \<comment> \<open>\<open>asset.size || 0\<close>\<close>
  "size_or_0 asset = (case asset_size asset of None \<Rightarrow> 0 | Some n \<Rightarrow> n)"

definition sum_sizes :: "asset_info list \<Rightarrow> nat" where
  \<comment> \<open>\<open>assets.reduce((sum, asset) => sum + (asset.size || 0), 0)\<close>\<close>
  "sum_sizes assets = sum_list (map size_or_0 assets)"

definition truthy_ids :: "string option list option \<Rightarrow> string list" where
  \<comment> \<open>\<open>(refs || [])\<close> after \<open>.filter(Boolean)\<close>: neither missing entries nor empty strings\<close>
  "truthy_ids refs =
     concat (map (\<lambda>r. case r of None \<Rightarrow> [] | Some i \<Rightarrow> if i = [] then [] else [i])
       (case refs of None \<Rightarrow> [] | Some rs \<Rightarrow> rs))"

definition referenced_ids :: "ref_doc list \<Rightarrow> complex_doc list \<Rightarrow> string set" where
  \<comment> \<open>\<open>referencedAssetIds\<close> after both reference queries\<close>
  "referenced_ids referencedResults complexDocs =
     set (concat (map (\<lambda>d. case d of None \<Rightarrow> [] | Some r \<Rightarrow> r) referencedResults))
     \<union> set (concat (map (\<lambda>d. truthy_ids (complexRefs d) @ truthy_ids (contentRefs d)
                               @ truthy_ids (blockRefs d)) complexDocs))"

definition keep_asset ::
  "regexp_lib \<Rightarrow> string list \<Rightarrow> js_date option \<Rightarrow> string set \<Rightarrow> asset_info \<Rightarrow> thrown + bool"
where
  \<comment> \<open>the callback of \<open>allAssets.filter\<close>\<close>
  "keep_asset lib patterns cutoff referencedAssetIds asset =
     (if asset_id asset \<in> referencedAssetIds then Inr False
      else case isExcluded lib patterns asset of
             Inl e \<Rightarrow> Inl e
           | Inr excluded \<Rightarrow>
               if excluded then Inr False
               else if \<not> isOlderThan cutoff asset then Inr False
               else Inr True)"

fun filter_unused ::
  "regexp_lib \<Rightarrow> string list \<Rightarrow> js_date option \<Rightarrow> string set \<Rightarrow> asset_info list
     \<Rightarrow> thrown + asset_info list"
where
  \<comment> \<open>\<open>allAssets.filter(asset => ...)\<close>; a callback that throws ends the filter\<close>
  "filter_unused lib patterns cutoff refs [] = Inr []"
| "filter_unused lib patterns cutoff refs (asset # rest) =
     (case keep_asset lib patterns cutoff refs asset of
        Inl e \<Rightarrow> Inl e
      | Inr keep \<Rightarrow>
          (case filter_unused lib patterns cutoff refs rest of
             Inl e \<Rightarrow> Inl e
           | Inr unused \<Rightarrow> Inr (if keep then asset # unused else unused)))"

definition scan_failed :: "thrown \<Rightarrow> state \<Rightarrow> query list \<Rightarrow> state \<times> effects" where
  \<comment> \<open>the \<open>catch\<close> and \<open>finally\<close> blocks of the scan (without the line of \<open>console.error\<close>)\<close>
  "scan_failed e st qs =
     (st\<lparr>message := Msg_scan_error (error_message e ''Scan failed''),
         isScanning := False, scanProgress := 0\<rparr>,
      no_effects\<lparr>queries := qs, callbacks := [OnError (error_message e ''Scan failed'')]\<rparr>)"

text \<open>
  The three queries are awaited one after the other inside one \<open>try\<close>; the first
  exception, of a query or of the filter, ends the scan in \<open>scan_failed\<close>. The
  \<open>finally\<close> block runs on both paths: it overwrites the progress of 100 that the
  successful path has just set.
\<close>

definition scanForUnusedAssets ::
  "regexp_lib \<Rightarrow> props \<Rightarrow> client \<Rightarrow> state \<Rightarrow> state \<times> effects"
where
  "scanForUnusedAssets lib p cl st0 =
     (let st1 = st0\<lparr>isScanning := True, message := Msg_scanning, scanProgress := 0\<rparr>;
          typeFilter = type_filter (assetTypes p);
          st2 = st1\<lparr>message := Msg_fetching\<rparr>;
          q1 = All_assets_query typeFilter (maxAssets p);
          q2 = Referenced_assets_query typeFilter;
          q3 = Complex_refs_query
      in case fetch_all_assets cl typeFilter (maxAssets p) of
           Inl e \<Rightarrow> scan_failed e st2 [q1]
         | Inr allAssets \<Rightarrow>
            (let st3 = st2\<lparr>totalAssets := length allAssets, scanProgress := 25,
                           message := Msg_checking_references\<rparr>
             in case fetch_referenced cl typeFilter of
                  Inl e \<Rightarrow> scan_failed e st3 [q1, q2]
                | Inr referencedResults \<Rightarrow>
                   (let st4 = st3\<lparr>scanProgress := 50, message := Msg_checking_complex\<rparr>
                    in case fetch_complex cl of
                         Inl e \<Rightarrow> scan_failed e st4 [q1, q2, q3]
                       | Inr complexDocs \<Rightarrow>
                          (let referencedAssetIds = referenced_ids referencedResults complexDocs;
                               st5 = st4\<lparr>scanProgress := 75, message := Msg_identifying\<rparr>
                           in case filter_unused lib (excludePatterns p) (olderThan p)
                                     referencedAssetIds allAssets of
                                Inl e \<Rightarrow> scan_failed e st5 [q1, q2, q3]
                              | Inr unused \<Rightarrow>
                                 (st5\<lparr>unusedAssets := unused, selectedAssets := [],
                                      totalSize := sum_sizes unused,
                                      message := Msg_found (length unused) (sum_sizes unused),
                                      isScanning := False, scanProgress := 0\<rparr>,
                                  no_effects\<lparr>queries := [q1, q2, q3]\<rparr>)))))"

section \<open>View filters and the selection\<close>

text \<open>
  The size and age refinements of \<open>getFilteredAssets\<close> compute with floating point
  (\<open>parseFloat(filterSize) * 1024 * 1024\<close>) and with the clock (\<open>new Date()\<close>); both
  comparisons are parameters of the model.
\<close>

record view_env =
  exceeds_megabytes :: "string \<Rightarrow> nat \<Rightarrow> bool"
    \<comment> \<open>\<open>(asset.size || 0) > parseFloat(filterSize) * 1024 * 1024\<close>\<close>
  created_before_days_ago :: "string \<Rightarrow> js_date \<Rightarrow> bool"
    \<comment> \<open>\<open>new Date(asset._createdAt) < cutoffDate\<close>, \<open>parseInt(filterAge)\<close> days before now\<close>

definition getFilteredAssets :: "view_env \<Rightarrow> state \<Rightarrow> asset_info list" where
  "getFilteredAssets env st =
     (let filtered = unusedAssets st;
          filtered = (if filterType st \<noteq> All_types
                      then filter (\<lambda>asset. if filterType st = Only_image
                                            then asset_type asset = Image_asset
                                            else asset_type asset = File_asset) filtered
                      else filtered);
          filtered = (if filterSize st \<noteq> []
                      then filter (\<lambda>asset. exceeds_megabytes env (filterSize st) (size_or_0 asset))
                             filtered
                      else filtered);
          filtered = (if filterAge st \<noteq> []
                      then filter (\<lambda>asset. created_before_days_ago env (filterAge st)
                                             (createdAt asset)) filtered
                      else filtered)
      in filtered)"

fun new_Set :: "string list \<Rightarrow> string list" where
  \<comment> \<open>\<open>new Set(array)\<close>: every member once, at its first position\<close>
  "new_Set [] = []"
| "new_Set (x # xs) = x # filter (\<lambda>y. y \<noteq> x) (new_Set xs)"

definition toggleAssetSelection :: "string \<Rightarrow> state \<Rightarrow> state" where
  "toggleAssetSelection aid st =
     (if aid \<in> set (selectedAssets st)
      then st\<lparr>selectedAssets := filter (\<lambda>y. y \<noteq> aid) (selectedAssets st)\<rparr>
      else st\<lparr>selectedAssets := selectedAssets st @ [aid]\<rparr>)"

definition selectAll :: "view_env \<Rightarrow> state \<Rightarrow> state" where
  "selectAll env st = st\<lparr>selectedAssets := new_Set (map asset_id (getFilteredAssets env st))\<rparr>"

definition clearSelection :: "state \<Rightarrow> state" where
  "clearSelection st = st\<lparr>selectedAssets := []\<rparr>"

section \<open>Batched deletion\<close>

text \<open>
  The local variables of \<open>handleDelete\<close> and what the loop did to the outside so far.
  The progress message of the loop is overwritten when the handler ends.
\<close>

record run =
  deletedCount :: nat
  savedSpace :: nat
  errors :: "string list"
  progress :: message                   \<comment> \<open>the last \<open>setMessage\<close> of the loop\<close>
  opened :: "string list list"          \<comment> \<open>the batches a transaction was opened for\<close>
  printed :: "string list list"         \<comment> \<open>the batches printed by \<open>console.log\<close>\<close>

definition run0 :: run where
  "run0 = \<lparr>deletedCount = 0, savedSpace = 0, errors = [], progress = No_message,
           opened = [], printed = []\<rparr>"

fun decimal :: "nat \<Rightarrow> string" where
  \<comment> \<open>a whole number in a template string\<close>
  "decimal n =
     (if n < 10 then [char_of (48 + n)] else decimal (n div 10) @ [char_of (48 + n mod 10)])"

declare decimal.simps [simp del]

definition batch_error :: "nat \<Rightarrow> string \<Rightarrow> string" where
  \<comment> \<open>the template \<open>Batch ${n}: ${errorMsg}\<close>\<close>
  "batch_error n errorMsg = ''Batch '' @ decimal n @ '': '' @ errorMsg"

definition batch_bytes :: "asset_info list \<Rightarrow> string list \<Rightarrow> nat" where
  \<comment> \<open>\<open>unusedAssets.filter(asset => batch.includes(asset._id))\<close>, summed\<close>
  "batch_bytes unused batch = sum_sizes (filter (\<lambda>asset. asset_id asset \<in> set batch) unused)"

definition process_batch ::
  "bool \<Rightarrow> nat \<Rightarrow> client \<Rightarrow> asset_info list \<Rightarrow> nat \<Rightarrow> nat \<Rightarrow> string list \<Rightarrow> run
     \<Rightarrow> thrown \<times> run + run"
where
  \<comment> \<open>the body of the loop at index \<open>i\<close>; \<open>Inl\<close> is an exception that leaves the loop\<close>
  "process_batch dry bsize cl unused len i batch r =
     (if dry then
        Inr (r\<lparr>printed := printed r @ [batch],
               deletedCount := deletedCount r + length batch,
               savedSpace := savedSpace r + batch_bytes unused batch\<rparr>)
      else
        (let r1 = r\<lparr>opened := opened r @ [batch]\<rparr>
         in case transaction cl (length (opened r)) batch of
              Build_failed e \<Rightarrow> Inl (e, r1)
            | Committed \<Rightarrow>
                Inr (r1\<lparr>deletedCount := deletedCount r + length batch,
                        savedSpace := savedSpace r + batch_bytes unused batch,
                        progress := Msg_deleted_progress (deletedCount r + length batch) len\<rparr>)
            | Commit_failed e \<Rightarrow>
                Inr (r1\<lparr>errors := errors r @
                          [batch_error (i div bsize + 1) (error_message e ''Unknown error'')]\<rparr>)))"

text \<open>
  \<open>for (let i = 0; i < assetsToDelete.length; i += batchSize)\<close>. With a batch size of 0
  the index never moves: the loop does not return, which is the value \<open>None\<close>.
\<close>

partial_function (option) delete_loop ::
  "bool \<Rightarrow> nat \<Rightarrow> client \<Rightarrow> asset_info list \<Rightarrow> string list \<Rightarrow> nat \<Rightarrow> run
     \<Rightarrow> (thrown \<times> run + run) option"
where
  "delete_loop dry bsize cl unused assetsToDelete i r =
     (if i < length assetsToDelete then
        (case process_batch dry bsize cl unused (length assetsToDelete) i
                (take bsize (drop i assetsToDelete)) r of
           Inl x \<Rightarrow> Some (Inl x)
         | Inr r' \<Rightarrow> delete_loop dry bsize cl unused assetsToDelete (i + bsize) r')
      else Some (Inr r))"

definition run_effects :: "run \<Rightarrow> effects" where
  "run_effects r = no_effects\<lparr>transactions := opened r, console := printed r\<rparr>"

text \<open>
  \<open>handleDelete\<close>. The argument \<open>onComplete\<close> is what the call
  \<open>onComplete?.({deleted, savedSpace, errors})\<close> does: it returns (\<open>None\<close>, also when no
  callback is given) or throws. The call stands inside the outer \<open>try\<close>, after the
  candidate list and the selection were written: an exception of it is caught like one
  of the loop.
\<close>

definition handleDelete_with ::
  "(nat \<Rightarrow> nat \<Rightarrow> string list \<Rightarrow> thrown option) \<Rightarrow> props \<Rightarrow> client \<Rightarrow> state
     \<Rightarrow> (state \<times> effects) option"
where
  "handleDelete_with onComplete p cl st =
     (if length (selectedAssets st) = 0 then Some (st, no_effects)
      else
        (let st1 = st\<lparr>isDeleting := True, message := No_message\<rparr>;
             assetsToDelete = selectedAssets st
         in case delete_loop (dryRun p) (batchSize p) cl (unusedAssets st) assetsToDelete 0 run0 of
              None \<Rightarrow> None
            | Some (Inr r) \<Rightarrow>
                (let remainingAssets =
                       filter (\<lambda>asset. asset_id asset \<notin> set (selectedAssets st)) (unusedAssets st);
                     finalMessage =
                       (if dryRun p then Msg_dry_run_done (deletedCount r) (savedSpace r)
                        else Msg_deleted_done (deletedCount r) (savedSpace r) (length (errors r)));
                     st2 = st1\<lparr>unusedAssets := remainingAssets, selectedAssets := [],
                              message := finalMessage\<rparr>
                 in case onComplete (deletedCount r) (savedSpace r) (errors r) of
                      None \<Rightarrow>
                        Some (st2\<lparr>isDeleting := False, showConfirmDialog := False\<rparr>,
                              (run_effects r)\<lparr>callbacks :=
                                 [OnComplete (deletedCount r) (savedSpace r) (errors r)]\<rparr>)
                    | Some e \<Rightarrow>
                        Some (st2\<lparr>message :=
                                    Msg_delete_error (error_message e ''Delete operation failed''),
                                  isDeleting := False, showConfirmDialog := False\<rparr>,
                              (run_effects r)\<lparr>callbacks :=
                                 [OnComplete (deletedCount r) (savedSpace r) (errors r),
                                  OnError (error_message e ''Delete operation failed'')]\<rparr>))
            | Some (Inl (e, r)) \<Rightarrow>
                Some (st1\<lparr>message := Msg_delete_error (error_message e ''Delete operation failed''),
                          isDeleting := False, showConfirmDialog := False\<rparr>,
                      (run_effects r)\<lparr>callbacks :=
                         [OnError (error_message e ''Delete operation failed'')]\<rparr>)))"

definition handleDelete :: "props \<Rightarrow> client \<Rightarrow> state \<Rightarrow> (state \<times> effects) option" where
  \<comment> \<open>the handler with a completion callback that returns\<close>
  "handleDelete p cl st = handleDelete_with (\<lambda>deleted saved errs. None) p cl st"


section \<open>Notions of the specification\<close>

text \<open>
  The definitions of this section are not code of the component. They say in the words
  of the specification what the code is compared with, or name the data the claims are
  instantiated with.
\<close>

subsection \<open>Patterns\<close>








subsection \<open>Batches\<close>

text \<open>
  The partition the deletion is specified with: consecutive batches of the configured
  size, in the order of the selection.
\<close>

function batches :: "nat \<Rightarrow> 'a list \<Rightarrow> 'a list list" where
  "batches n xs = (if n = 0 \<or> xs = [] then [] else take n xs # batches n (drop n xs))"
  by pat_completeness auto
termination
  by (relation "measure (\<lambda>(n, xs). length xs)") auto

declare batches.simps [simp del]

subsection \<open>The loop over a list of batches\<close>

fun run_batches ::
  "bool \<Rightarrow> nat \<Rightarrow> client \<Rightarrow> asset_info list \<Rightarrow> nat \<Rightarrow> nat \<Rightarrow> string list list \<Rightarrow> run
     \<Rightarrow> thrown \<times> run + run"
where
  \<comment> \<open>\<open>process_batch\<close> on the batches of a list, from index \<open>i\<close> on, up to the first
      exception\<close>
  "run_batches dry bsize cl unused len i [] r = Inr r"
| "run_batches dry bsize cl unused len i (b # bs) r =
     (case process_batch dry bsize cl unused len i b r of
        Inl x \<Rightarrow> Inl x
      | Inr r' \<Rightarrow> run_batches dry bsize cl unused len (i + bsize) bs r')"

subsection \<open>Reachable states\<close>

text \<open>
  The states the component can be in: the initial one, and what a handler makes of a
  reachable one, whatever the client, the options, the callback and the clock are at
  that moment.
  A check box exists for candidates only.
\<close>

inductive reachable :: "state \<Rightarrow> bool" where
  reach_initial: "reachable initial_state"
| reach_scan: "reachable st \<Longrightarrow> reachable (fst (scanForUnusedAssets lib p cl st))"
| reach_toggle:
    "reachable st \<Longrightarrow> aid \<in> asset_id ` set (unusedAssets st)
       \<Longrightarrow> reachable (toggleAssetSelection aid st)"
| reach_select_all: "reachable st \<Longrightarrow> reachable (selectAll env st)"
| reach_clear: "reachable st \<Longrightarrow> reachable (clearSelection st)"
| reach_delete:
    "reachable st \<Longrightarrow> handleDelete_with onComplete p cl st = Some (st', eff)
       \<Longrightarrow> reachable st'"
| reach_filters:
    "reachable st \<Longrightarrow> reachable (st\<lparr>filterType := ft, filterSize := fs, filterAge := fa\<rparr>)"
| reach_dialog: "reachable st \<Longrightarrow> reachable (st\<lparr>showConfirmDialog := b\<rparr>)"

subsection \<open>Example data\<close>

definition lib_none :: regexp_lib where
  \<comment> \<open>a \<open>RegExp\<close> that rejects every source outside the interpreted fragment\<close>
  "lib_none source = Inl (Error_obj ''Invalid regular expression'')"

definition asset_of :: "string \<Rightarrow> string option \<Rightarrow> nat option \<Rightarrow> js_date \<Rightarrow> asset_info" where
  "asset_of i f sz created =
     \<lparr>asset_id = i, asset_type = Image_asset, originalFilename = f, url = [],
      asset_size = sz, mimeType = ''image/jpeg'', createdAt = created, updatedAt = [],
      extension = None\<rparr>"

definition five_assets :: "asset_info list" where
  "five_assets =
     [asset_of ''A'' (Some ''a.jpg'') (Some 10) (Some 20),
      asset_of ''B'' (Some ''b.jpg'') (Some 20) (Some 21),
      asset_of ''C'' (Some ''c.jpg'') (Some 30) (Some 29),
      asset_of ''D'' (Some ''d.jpg'') (Some 40) (Some 22),
      asset_of ''E'' (Some ''e.jpg'') (Some 50) (Some 23)]"

definition scenario_inventory :: "asset_info list" where
  \<comment> \<open>A: 10 days old, 2 MB; B: referenced; C: 1 day old, 1 MB; H: a hero image. Dates in
      days, today is day 30.\<close>
  "scenario_inventory =
     [asset_of ''A'' (Some ''a.jpg'') (Some 2097152) (Some 20),
      asset_of ''B'' (Some ''b.jpg'') (Some 5) (Some 1),
      asset_of ''C'' (Some ''c.jpg'') (Some 1048576) (Some 29),
      asset_of ''H'' (Some ''hero-banner.jpg'') (Some 7) (Some 2)]"

definition default_props :: props where
  "default_props =
     \<lparr>assetTypes = [Image, File], olderThan = None, excludePatterns = [], batchSize = 10,
      dryRun = False, maxAssets = 500\<rparr>"

definition client_of ::
  "(thrown + asset_info list) \<Rightarrow> (thrown + ref_doc list) \<Rightarrow> (thrown + complex_doc list)
     \<Rightarrow> (nat \<Rightarrow> string list \<Rightarrow> txn_outcome) \<Rightarrow> client"
where
  "client_of inventory refs complex txn =
     \<lparr>fetch_all_assets = (\<lambda>typeFilter limit. inventory),
      fetch_referenced = (\<lambda>typeFilter. refs),
      fetch_complex = complex,
      transaction = txn\<rparr>"

definition fails_at :: "nat \<Rightarrow> nat \<Rightarrow> string list \<Rightarrow> txn_outcome" where
  \<comment> \<open>the commit of transaction \<open>k\<close> rejects, every other one succeeds\<close>
  "fails_at k n batch = (if n = k then Commit_failed (Error_obj ''boom'') else Committed)"

definition deleting_client :: "(nat \<Rightarrow> string list \<Rightarrow> txn_outcome) \<Rightarrow> client" where
  "deleting_client txn = client_of (Inr []) (Inr []) (Inr []) txn"

definition throwing_callback :: "nat \<Rightarrow> nat \<Rightarrow> string list \<Rightarrow> thrown option" where
  \<comment> \<open>a completion callback that throws\<close>
  "throwing_callback deleted saved errs = Some (Error_obj ''callback failed'')"

definition selected_state :: "asset_info list \<Rightarrow> string list \<Rightarrow> state" where
  "selected_state assets sel = initial_state\<lparr>unusedAssets := assets, selectedAssets := sel\<rparr>"

definition scanned_state :: state where
  \<comment> \<open>the state after a first scan that finds the five assets unused\<close>
  "scanned_state =
     fst (scanForUnusedAssets lib_none default_props
            (client_of (Inr five_assets) (Inr []) (Inr []) (fails_at 0)) initial_state)"


section \<open>Lemmas\<close>

subsection \<open>The filter of the scan\<close>







lemma filter_unused_again:
  "filter_unused lib ps cutoff refs I = Inr c \<Longrightarrow> filter_unused lib ps cutoff refs c = Inr c"
proof (induction I arbitrary: c)
  case Nil
  then show ?case by simp
next
  case (Cons a I)
  then show ?case
    by (auto split: sum.splits if_splits)
qed


subsection \<open>Plain patterns are globs\<close>
















subsection \<open>Matching up to case\<close>








subsection \<open>Batches and the loop\<close>

lemma batches_Nil [simp]: "batches n [] = []"
  by (simp add: batches.simps)

lemma batches_step:
  "0 < n \<Longrightarrow> xs \<noteq> [] \<Longrightarrow> batches n xs = take n xs # batches n (drop n xs)"
  by (subst batches.simps) simp

lemma delete_loop_batches:
  assumes "0 < bsize"
  shows "delete_loop dry bsize cl U xs i r =
           Some (run_batches dry bsize cl U (length xs) i (batches bsize (drop i xs)) r)"
proof (induction "length xs - i" arbitrary: i r rule: less_induct)
  case less
  show ?case
  proof (cases "i < length xs")
    case False
    then show ?thesis by (subst delete_loop.simps) simp
  next
    case True
    then have "drop i xs \<noteq> []" by simp
    with assms have b: "batches bsize (drop i xs) =
        take bsize (drop i xs) # batches bsize (drop (i + bsize) xs)"
      by (simp add: batches_step add.commute)
    show ?thesis
    proof (cases "process_batch dry bsize cl U (length xs) i (take bsize (drop i xs)) r")
      case (Inl x)
      with True show ?thesis by (subst delete_loop.simps) (simp add: b)
    next
      case (Inr r')
      from True assms have "length xs - (i + bsize) < length xs - i" by simp
      then have "delete_loop dry bsize cl U xs (i + bsize) r' =
          Some (run_batches dry bsize cl U (length xs) (i + bsize)
                  (batches bsize (drop (i + bsize) xs)) r')"
        by (rule less.hyps)
      with True Inr show ?thesis by (subst delete_loop.simps) (simp add: b)
    qed
  qed
qed

lemma delete_loop_zero_aux:
  assumes "delete_loop dry bsize cl U xs i r = Some y"
  shows "\<not> (dry \<and> bsize = 0 \<and> i < length xs)"
proof (rule delete_loop.raw_induct
    [where P = "\<lambda>dry bsize cl U xs i r y. \<not> (dry \<and> bsize = 0 \<and> i < length xs)", OF _ assms])
  fix f dry bsize cl U xs i r y
  assume ih: "\<And>dry bsize cl U xs i r y.
      f dry bsize cl U xs i r = Some y \<Longrightarrow> \<not> (dry \<and> bsize = 0 \<and> i < length xs)"
    and step: "(if i < length xs then
        (case process_batch dry bsize cl U (length xs) i (take bsize (drop i xs)) r of
           Inl x \<Rightarrow> Some (Inl x)
         | Inr r' \<Rightarrow> f dry bsize cl U xs (i + bsize) r')
      else Some (Inr r)) = Some (y :: thrown \<times> run + run)"
  show "\<not> (dry \<and> bsize = 0 \<and> i < length xs)"
  proof
    assume a: "dry \<and> bsize = 0 \<and> i < length xs"
    with step obtain r' where "f dry bsize cl U xs i r' = Some y"
      by (auto simp: process_batch_def)
    with ih a show False by blast
  qed
qed

lemma delete_loop_zero:
  "i < length xs \<Longrightarrow> delete_loop True 0 cl U xs i r = None"
  using delete_loop_zero_aux [of True 0 cl U xs i r] by (cases "delete_loop True 0 cl U xs i r") auto

lemma concat_batches: "0 < n \<Longrightarrow> concat (batches n xs) = xs"
proof (induction n xs rule: batches.induct)
  case (1 n xs)
  then show ?case by (cases "xs = []") (simp_all add: batches_step)
qed

lemma length_batches: "0 < n \<Longrightarrow> length (batches n xs) = (length xs + n - 1) div n"
proof (induction n xs rule: batches.induct)
  case (1 n xs)
  show ?case
  proof (cases "xs = []")
    case True
    with 1 show ?thesis by simp
  next
    case False
    with 1 have ih: "length (batches n (drop n xs)) = (length xs - n + n - 1) div n" by simp
    show ?thesis
    proof (cases "length xs \<le> n")
      case True
      with False 1(2) have "(length xs + n - 1) div n = 1"
        by (intro Euclidean_Rings.div_nat_eqI) (cases xs, simp_all)
      moreover from True 1(2) have "batches n (drop n xs) = []" by simp
      ultimately show ?thesis using False 1(2) by (simp add: batches_step)
    next
      case False
      then have "length xs + n - 1 = (length xs - n + n - 1) + n" by simp
      then have "(length xs + n - 1) div n = Suc ((length xs - n + n - 1) div n)"
        using 1(2) by (metis div_add_self2 Suc_eq_plus1 less_numeral_extra(3))
      with ih \<open>xs \<noteq> []\<close> 1(2) show ?thesis by (simp add: batches_step)
    qed
  qed
qed

lemma nth_batches:
  "0 < n \<Longrightarrow> j < length (batches n xs) \<Longrightarrow> batches n xs ! j = take n (drop (j * n) xs)"
proof (induction n xs arbitrary: j rule: batches.induct)
  case (1 n xs)
  show ?case
  proof (cases "xs = []")
    case True
    with 1 show ?thesis by simp
  next
    case False
    show ?thesis
    proof (cases j)
      case 0
      with False 1(2) show ?thesis by (simp add: batches_step)
    next
      case (Suc j')
      with 1(3) False 1(2) have "j' < length (batches n (drop n xs))" by (simp add: batches_step)
      with 1(1) [of j'] False 1(2) have "batches n (drop n xs) ! j' = take n (drop (j' * n) (drop n xs))"
        by simp
      with Suc False 1(2) show ?thesis by (simp add: batches_step add.commute)
    qed
  qed
qed

lemma batch_nonempty: "b \<in> set (batches n xs) \<Longrightarrow> b \<noteq> [] \<and> length b \<le> n"
proof (induction n xs rule: batches.induct)
  case (1 n xs)
  show ?case
  proof (cases "n = 0 \<or> xs = []")
    case True
    with 1(2) show ?thesis by (auto simp: batches.simps)
  next
    case False
    with 1 show ?thesis by (auto simp: batches_step)
  qed
qed

lemma batch_full:
  "0 < n \<Longrightarrow> Suc j < length (batches n xs) \<Longrightarrow> length (batches n xs ! j) = n"
proof (induction n xs arbitrary: j rule: batches.induct)
  case (1 n xs)
  show ?case
  proof (cases "xs = []")
    case True
    with 1 show ?thesis by simp
  next
    case False
    note ne = this
    from 1(3) ne 1(2) have rest: "batches n (drop n xs) \<noteq> []" by (auto simp: batches_step)
    then have more: "n < length xs" by (cases "n < length xs") auto
    show ?thesis
    proof (cases j)
      case 0
      with ne 1(2) more show ?thesis by (simp add: batches_step)
    next
      case (Suc j')
      with 1(3) ne 1(2) have "Suc j' < length (batches n (drop n xs))" by (simp add: batches_step)
      with 1(1) [of j'] ne 1(2) have "length (batches n (drop n xs) ! j') = n" by simp
      with Suc ne 1(2) show ?thesis by (simp add: batches_step)
    qed
  qed
qed

lemma run_batches_dry:
  "run_batches True bsize cl U len i bs r =
     Inr (r\<lparr>printed := printed r @ bs,
            deletedCount := deletedCount r + length (concat bs),
            savedSpace := savedSpace r + sum_list (map (batch_bytes U) bs)\<rparr>)"
  by (induction bs arbitrary: i r) (simp_all add: process_batch_def add.assoc)

lemma run_batches_append:
  "run_batches dry bsize cl U len i (as @ bs) r =
     (case run_batches dry bsize cl U len i as r of
        Inl x \<Rightarrow> Inl x
      | Inr r' \<Rightarrow> run_batches dry bsize cl U len (i + length as * bsize) bs r')"
  by (induction as arbitrary: i r) (simp_all add: add.assoc add.commute split: sum.splits)

lemma run_batches_committed:
  assumes "\<And>m. m < length bs \<Longrightarrow> transaction cl (length (opened r) + m) (bs ! m) = Committed"
  shows "\<exists>pm. run_batches False bsize cl U len i bs r =
           Inr (r\<lparr>opened := opened r @ bs,
                  deletedCount := deletedCount r + length (concat bs),
                  savedSpace := savedSpace r + sum_list (map (batch_bytes U) bs),
                  progress := pm\<rparr>)"
  using assms
proof (induction bs arbitrary: i r)
  case Nil
  have "r = r\<lparr>progress := progress r\<rparr>" by simp
  then show ?case by (intro exI [of _ "progress r"]) simp
next
  case (Cons b bs)
  from Cons.prems [of 0] have b: "transaction cl (length (opened r)) b = Committed" by simp
  define r1 where "r1 = r\<lparr>opened := opened r @ [b],
      deletedCount := deletedCount r + length b,
      savedSpace := savedSpace r + batch_bytes U b,
      progress := Msg_deleted_progress (deletedCount r + length b) len\<rparr>"
  from b have step: "process_batch False bsize cl U len i b r = Inr r1"
    by (simp add: process_batch_def r1_def)
  have "\<And>m. m < length bs \<Longrightarrow> transaction cl (length (opened r1) + m) (bs ! m) = Committed"
    using Cons.prems [of "Suc _"] by (simp add: r1_def)
  from Cons.IH [OF this, of "i + bsize"] obtain pm where
    "run_batches False bsize cl U len (i + bsize) bs r1 =
       Inr (r1\<lparr>opened := opened r1 @ bs,
              deletedCount := deletedCount r1 + length (concat bs),
              savedSpace := savedSpace r1 + sum_list (map (batch_bytes U) bs),
              progress := pm\<rparr>)" by blast
  with step show ?case by (intro exI [of _ pm]) (simp add: r1_def add.assoc)
qed

lemma run_batches_no_abort:
  assumes "\<And>m e. m < length bs \<Longrightarrow> transaction cl (length (opened r) + m) (bs ! m) \<noteq> Build_failed e"
  shows "\<exists>r'. run_batches False bsize cl U len i bs r = Inr r'
           \<and> opened r' = opened r @ bs \<and> printed r' = printed r"
  using assms
proof (induction bs arbitrary: i r)
  case Nil
  then show ?case by simp
next
  case (Cons b bs)
  from Cons.prems [of 0] have "\<And>e. transaction cl (length (opened r)) b \<noteq> Build_failed e" by simp
  then obtain r1 where step: "process_batch False bsize cl U len i b r = Inr r1"
    and r1: "opened r1 = opened r @ [b]" "printed r1 = printed r"
    by (cases "transaction cl (length (opened r)) b") (auto simp: process_batch_def)
  have "\<And>m e. m < length bs \<Longrightarrow> transaction cl (length (opened r1) + m) (bs ! m) \<noteq> Build_failed e"
    using Cons.prems [of "Suc _"] by (simp add: r1)
  from Cons.IH [OF this, of "i + bsize"] obtain r' where
    "run_batches False bsize cl U len (i + bsize) bs r1 = Inr r'"
    "opened r' = opened r1 @ bs" "printed r' = printed r1" by blast
  with step r1 show ?case by simp
qed

lemma batch_bytes_append:
  "set b \<inter> set c = {} \<Longrightarrow> batch_bytes U (b @ c) = batch_bytes U b + batch_bytes U c"
  by (induction U) (auto simp: batch_bytes_def sum_sizes_def)

lemma sum_batch_bytes:
  "distinct (concat bs) \<Longrightarrow> sum_list (map (batch_bytes U) bs) = batch_bytes U (concat bs)"
proof (induction bs)
  case Nil
  then show ?case by (simp add: batch_bytes_def sum_sizes_def)
next
  case (Cons b bs)
  then have "set b \<inter> set (concat bs) = {}" by auto
  with Cons show ?case by (simp add: batch_bytes_append)
qed

lemma batch_bytes_pos:
  "0 < batch_bytes U b \<longleftrightarrow> (\<exists>a \<in> set U. asset_id a \<in> set b \<and> 0 < size_or_0 a)"
  by (induction U) (auto simp: batch_bytes_def sum_sizes_def)

lemma handleDelete_completed:
  assumes "0 < batchSize p" "selectedAssets st \<noteq> []"
    and "run_batches (dryRun p) (batchSize p) cl (unusedAssets st) (length (selectedAssets st)) 0
           (batches (batchSize p) (selectedAssets st)) run0 = Inr r"
  shows "handleDelete p cl st =
     Some (st\<lparr>isDeleting := True, message := No_message,
              unusedAssets := filter (\<lambda>asset. asset_id asset \<notin> set (selectedAssets st)) (unusedAssets st),
              selectedAssets := [],
              message := (if dryRun p then Msg_dry_run_done (deletedCount r) (savedSpace r)
                          else Msg_deleted_done (deletedCount r) (savedSpace r) (length (errors r))),
              isDeleting := False, showConfirmDialog := False\<rparr>,
           (run_effects r)\<lparr>callbacks := [OnComplete (deletedCount r) (savedSpace r) (errors r)]\<rparr>)"
  using assms by (simp add: handleDelete_def handleDelete_with_def delete_loop_batches Let_def)

lemma handleDelete_aborted:
  assumes "0 < batchSize p" "selectedAssets st \<noteq> []"
    and "run_batches (dryRun p) (batchSize p) cl (unusedAssets st) (length (selectedAssets st)) 0
           (batches (batchSize p) (selectedAssets st)) run0 = Inl (e, r)"
  shows "handleDelete p cl st =
     Some (st\<lparr>isDeleting := True, message := No_message,
              message := Msg_delete_error (error_message e ''Delete operation failed''),
              isDeleting := False, showConfirmDialog := False\<rparr>,
           (run_effects r)\<lparr>callbacks := [OnError (error_message e ''Delete operation failed'')]\<rparr>)"
  using assms by (simp add: handleDelete_def handleDelete_with_def delete_loop_batches Let_def)

lemma handleDelete_terminates:
  assumes "0 < batchSize p"
  shows "\<exists>out. handleDelete p cl st = Some out"
proof (cases "selectedAssets st = []")
  case True
  then show ?thesis by (simp add: handleDelete_def handleDelete_with_def)
next
  case False
  show ?thesis
  proof (cases "run_batches (dryRun p) (batchSize p) cl (unusedAssets st) (length (selectedAssets st)) 0
           (batches (batchSize p) (selectedAssets st)) run0")
    case (Inl x)
    then show ?thesis using handleDelete_aborted [OF assms False, of cl "fst x" "snd x"] by simp
  next
    case (Inr r)
    then show ?thesis using handleDelete_completed [OF assms False, of cl r] by simp
  qed
qed

lemma run_batches_one_failure:
  assumes k: "k < length bs" and pos: "0 < bsize"
    and out: "\<And>j. j < length bs \<Longrightarrow>
                transaction cl j (bs ! j) = (if j = k then Commit_failed e else Committed)"
  shows "\<exists>pm. run_batches False bsize cl U len 0 bs run0 =
           Inr (run0\<lparr>opened := bs,
                  deletedCount := length (concat bs) - length (bs ! k),
                  savedSpace := sum_list (map (batch_bytes U) (take k bs @ drop (Suc k) bs)),
                  errors := [batch_error (k + 1) (error_message e ''Unknown error'')],
                  progress := pm\<rparr>)"
proof -
  let ?pre = "take k bs" and ?post = "drop (Suc k) bs"
  have split: "bs = ?pre @ [bs ! k] @ ?post"
    using k by (simp add: id_take_nth_drop)
  have "\<And>m. m < length ?pre \<Longrightarrow> transaction cl (length (opened run0) + m) (?pre ! m) = Committed"
    using out k by (simp add: run0_def)
  from run_batches_committed [OF this, of bsize U len 0] obtain pm1 where
    r1: "run_batches False bsize cl U len 0 ?pre run0 =
           Inr (run0\<lparr>opened := opened run0 @ ?pre,
                  deletedCount := deletedCount run0 + length (concat ?pre),
                  savedSpace := savedSpace run0 + sum_list (map (batch_bytes U) ?pre),
                  progress := pm1\<rparr>)" by blast
  define r1 where "r1 = run0\<lparr>opened := ?pre, deletedCount := length (concat ?pre),
      savedSpace := sum_list (map (batch_bytes U) ?pre), progress := pm1\<rparr>"
  from r1 have run1: "run_batches False bsize cl U len 0 ?pre run0 = Inr r1"
    by (simp add: r1_def run0_def)
  have len1: "length (opened r1) = k" using k by (simp add: r1_def)
  define r2 where "r2 = r1\<lparr>opened := opened r1 @ [bs ! k],
      errors := errors r1 @ [batch_error (k * bsize div bsize + 1) (error_message e ''Unknown error'')]\<rparr>"
  have step: "process_batch False bsize cl U len (k * bsize) (bs ! k) r1 = Inr r2"
    using out [OF k] by (simp add: process_batch_def len1 r2_def)
  have len2: "length (opened r2) = Suc k" by (simp add: r2_def len1)
  have "\<And>m. m < length ?post \<Longrightarrow> transaction cl (length (opened r2) + m) (?post ! m) = Committed"
    using out k by (simp add: len2)
  from run_batches_committed [OF this, of bsize U len "k * bsize + bsize"] obtain pm where
    r3: "run_batches False bsize cl U len (k * bsize + bsize) ?post r2 =
           Inr (r2\<lparr>opened := opened r2 @ ?post,
                  deletedCount := deletedCount r2 + length (concat ?post),
                  savedSpace := savedSpace r2 + sum_list (map (batch_bytes U) ?post),
                  progress := pm\<rparr>)" by blast
  have "run_batches False bsize cl U len 0 bs run0 =
          run_batches False bsize cl U len 0 (?pre @ (bs ! k) # ?post) run0"
    using split by simp
  also have "\<dots> = run_batches False bsize cl U len (k * bsize) ((bs ! k) # ?post) r1"
    using k by (simp only: run_batches_append run1 sum.case length_take min.absorb2 less_imp_le add_0)
  also have "\<dots> = run_batches False bsize cl U len (k * bsize + bsize) ?post r2"
    using step by simp
  finally have run: "run_batches False bsize cl U len 0 bs run0 =
           Inr (r2\<lparr>opened := opened r2 @ ?post,
                  deletedCount := deletedCount r2 + length (concat ?post),
                  savedSpace := savedSpace r2 + sum_list (map (batch_bytes U) ?post),
                  progress := pm\<rparr>)"
    using r3 by simp
  have "concat bs = concat ?pre @ bs ! k @ concat ?post"
    by (subst split) simp
  then have count: "length (concat ?pre) + length (concat ?post) = length (concat bs) - length (bs ! k)"
    by simp
  have opened: "?pre @ [bs ! k] @ ?post = bs" using split by simp
  have "r2\<lparr>opened := opened r2 @ ?post,
           deletedCount := deletedCount r2 + length (concat ?post),
           savedSpace := savedSpace r2 + sum_list (map (batch_bytes U) ?post),
           progress := pm\<rparr> =
        run0\<lparr>opened := bs,
             deletedCount := length (concat bs) - length (bs ! k),
             savedSpace := sum_list (map (batch_bytes U) (take k bs @ drop (Suc k) bs)),
             errors := [batch_error (k + 1) (error_message e ''Unknown error'')],
             progress := pm\<rparr>"
    using pos count opened by (simp add: r2_def r1_def run0_def)
  with run show ?thesis by (intro exI [of _ pm]) simp
qed

subsection \<open>The selection\<close>

lemma set_new_Set: "set (new_Set xs) = set xs"
  by (induction xs) auto

lemma distinct_new_Set: "distinct (new_Set xs)"
  by (induction xs) (auto simp: set_new_Set)

lemma set_getFilteredAssets: "set (getFilteredAssets env st) \<subseteq> set (unusedAssets st)"
  by (auto simp: getFilteredAssets_def Let_def)

lemma scan_frame:
  "(unusedAssets (fst (scanForUnusedAssets lib p cl st)) = unusedAssets st
      \<and> selectedAssets (fst (scanForUnusedAssets lib p cl st)) = selectedAssets st)
   \<or> selectedAssets (fst (scanForUnusedAssets lib p cl st)) = []"
  by (simp add: scanForUnusedAssets_def scan_failed_def Let_def split: sum.splits)

lemma handleDelete_with_frame:
  assumes "handleDelete_with onComplete p cl st = Some (st', eff)"
  shows "(unusedAssets st' = unusedAssets st \<and> selectedAssets st' = selectedAssets st)
         \<or> selectedAssets st' = []"
  using assms
  by (auto simp: handleDelete_with_def Let_def
      split: if_splits option.splits sum.splits prod.splits)

lemma handleDelete_with_completed:
  assumes "handleDelete_with onComplete p cl st = Some (st', eff)"
    and "OnComplete d s es \<in> set (callbacks eff)"
  shows "unusedAssets st' =
           filter (\<lambda>a. asset_id a \<notin> set (selectedAssets st)) (unusedAssets st)
         \<and> selectedAssets st' = []"
  using assms
  by (auto simp: handleDelete_with_def Let_def no_effects_def run_effects_def
      split: if_splits option.splits sum.splits prod.splits)

lemma handleDelete_with_completes:
  assumes "0 < batchSize p" "selectedAssets st \<noteq> []"
    and "run_batches (dryRun p) (batchSize p) cl (unusedAssets st) (length (selectedAssets st)) 0
           (batches (batchSize p) (selectedAssets st)) run0 = Inr r"
  shows "\<exists>st' eff. handleDelete_with onComplete p cl st = Some (st', eff)
           \<and> OnComplete (deletedCount r) (savedSpace r) (errors r) \<in> set (callbacks eff)"
  using assms
  by (cases "onComplete (deletedCount r) (savedSpace r) (errors r)")
     (simp_all add: handleDelete_with_def delete_loop_batches Let_def)

lemma reachable_inv:
  "reachable st \<Longrightarrow> set (selectedAssets st) \<subseteq> asset_id ` set (unusedAssets st) \<and> distinct (selectedAssets st)"
proof (induction rule: reachable.induct)
  case reach_initial
  then show ?case by (simp add: initial_state_def)
next
  case (reach_scan st lib p cl)
  then show ?case using scan_frame [of lib p cl st] by auto
next
  case (reach_toggle st aid)
  then show ?case by (auto simp: toggleAssetSelection_def)
next
  case (reach_select_all st env)
  then show ?case using set_getFilteredAssets [of env st]
    by (auto simp: selectAll_def set_new_Set distinct_new_Set)
next
  case (reach_clear st)
  then show ?case by (simp add: clearSelection_def)
next
  case (reach_delete st onComplete p cl st' eff)
  then show ?case using handleDelete_with_frame [of onComplete p cl st st' eff] by auto
next
  case (reach_filters st ft fs fa)
  then show ?case by simp
next
  case (reach_dialog st b)
  then show ?case by simp
qed

lemma decimal_digits:
  "decimal 1 = ''1''" "decimal 2 = ''2''" "decimal (Suc 0) = ''1''" "decimal (Suc (Suc 0)) = ''2''"
  by code_simp+

text \<open>Without the precondition on the batch size a dry run does not return.\<close>

lemma handleDelete_batch_size_0:
  assumes "dryRun p" and "batchSize p = 0" and "selectedAssets st \<noteq> []"
  shows "handleDelete p cl st = None"
proof -
  from assms(3) have "0 < length (selectedAssets st)" by simp
  then have "delete_loop True 0 cl (unusedAssets st) (selectedAssets st) 0 run0 = None"
    by (rule delete_loop_zero)
  with assms show ?thesis by (simp add: handleDelete_def handleDelete_with_def)
qed

section \<open>The claims\<close>

subsection \<open>C2: the candidates of the unused-set filter\<close>



subsection \<open>C6: exclude patterns\<close>




subsection \<open>C10: no asset kind given\<close>

text \<open>
  Claim C10. When the \<open>assetTypes\<close> option is the empty list, the type filter of the scan
  is the file-asset filter \<open>_type == "sanity.fileAsset"\<close>: the scan behaves as it does for
  \<open>['file']\<close>.
\<close>

theorem C10_empty_asset_types:
  "type_filter [] = ''_type == \"sanity.fileAsset\"''
   \<and> type_filter [] = type_filter [File]
   \<and> scanForUnusedAssets lib (p\<lparr>assetTypes := []\<rparr>) cl st =
       scanForUnusedAssets lib (p\<lparr>assetTypes := [File]\<rparr>) cl st"
  by (simp add: type_filter_def scanForUnusedAssets_def Let_def split: sum.splits)

text \<open>The queries of a scan without asset kinds ask for file assets.\<close>

theorem C10_witness:
  "queries (snd (scanForUnusedAssets lib_none (default_props\<lparr>assetTypes := []\<rparr>)
                  (client_of (Inr five_assets) (Inr []) (Inr []) (fails_at 0)) initial_state)) =
     [All_assets_query ''_type == \"sanity.fileAsset\"'' 500,
      Referenced_assets_query ''_type == \"sanity.fileAsset\"'',
      Complex_refs_query]"
proof -
  have "type_filter [] = ''_type == \"sanity.fileAsset\"''"
    using C10_empty_asset_types [of lib_none default_props
        "client_of (Inr five_assets) (Inr []) (Inr []) (fails_at 0)" initial_state]
    by blast
  then show ?thesis
    by (simp add: scanForUnusedAssets_def scan_failed_def default_props_def client_of_def
        no_effects_def Let_def split: sum.splits)
qed

subsection \<open>C7: a failing read query\<close>

text \<open>
  Claim C7. If a read query of the scan throws or rejects (the first, or a later one after
  the earlier ones returned), the remaining queries are not issued, the error callback
  is called with the failure message, and the candidate list and the selection are what
  they were before the scan: no candidates are computed from a partial reference set.
  Of the whole state, only the status line, the progress, the scanning flag and (after
  the first query) the asset count are written.
\<close>

theorem C7_scan_failure:
  fixes lib :: regexp_lib and p :: props and cl :: client and st :: state
  defines "tf \<equiv> type_filter (assetTypes p)"
  defines "st' \<equiv> fst (scanForUnusedAssets lib p cl st)"
  defines "eff \<equiv> snd (scanForUnusedAssets lib p cl st)"
  assumes
    "fetch_all_assets cl tf (maxAssets p) = Inl e
       \<and> qs = [All_assets_query tf (maxAssets p)]
     \<or> (\<exists>inventory. fetch_all_assets cl tf (maxAssets p) = Inr inventory)
       \<and> fetch_referenced cl tf = Inl e
       \<and> qs = [All_assets_query tf (maxAssets p), Referenced_assets_query tf]
     \<or> (\<exists>inventory. fetch_all_assets cl tf (maxAssets p) = Inr inventory)
       \<and> (\<exists>docs. fetch_referenced cl tf = Inr docs)
       \<and> fetch_complex cl = Inl e
       \<and> qs = [All_assets_query tf (maxAssets p), Referenced_assets_query tf,
                Complex_refs_query]"
  shows "unusedAssets st' = unusedAssets st
     \<and> selectedAssets st' = selectedAssets st
     \<and> callbacks eff = [OnError (error_message e ''Scan failed'')]
     \<and> queries eff = qs
     \<and> (\<exists>n. st' = st\<lparr>totalAssets := n,
                          message := Msg_scan_error (error_message e ''Scan failed''),
                          isScanning := False, scanProgress := 0\<rparr>)"
proof -
  from assms(4) consider
    (first) "fetch_all_assets cl tf (maxAssets p) = Inl e"
      "qs = [All_assets_query tf (maxAssets p)]"
  | (second) inventory where "fetch_all_assets cl tf (maxAssets p) = Inr inventory"
      "fetch_referenced cl tf = Inl e"
      "qs = [All_assets_query tf (maxAssets p), Referenced_assets_query tf]"
  | (third) inventory docs where "fetch_all_assets cl tf (maxAssets p) = Inr inventory"
      "fetch_referenced cl tf = Inr docs" "fetch_complex cl = Inl e"
      "qs = [All_assets_query tf (maxAssets p), Referenced_assets_query tf, Complex_refs_query]"
    by blast
  moreover have fin: ?thesis
    if "st' = st\<lparr>totalAssets := n,
          message := Msg_scan_error (error_message e ''Scan failed''),
          isScanning := False, scanProgress := 0\<rparr>"
      and "eff = no_effects\<lparr>queries := qs,
          callbacks := [OnError (error_message e ''Scan failed'')]\<rparr>" for n
  proof -
    from that(1) have ex: "\<exists>n. st' = st\<lparr>totalAssets := n,
          message := Msg_scan_error (error_message e ''Scan failed''),
          isScanning := False, scanProgress := 0\<rparr>" by blast
    from that have "unusedAssets st' = unusedAssets st \<and> selectedAssets st' = selectedAssets st
        \<and> callbacks eff = [OnError (error_message e ''Scan failed'')] \<and> queries eff = qs"
      by (simp add: no_effects_def)
    with ex show ?thesis by blast
  qed
  ultimately show ?thesis
  proof cases
    case first
    then have "st' = st\<lparr>totalAssets := totalAssets st,
        message := Msg_scan_error (error_message e ''Scan failed''),
        isScanning := False, scanProgress := 0\<rparr>"
      and "eff = no_effects\<lparr>queries := qs,
        callbacks := [OnError (error_message e ''Scan failed'')]\<rparr>"
      unfolding tf_def st'_def eff_def
      by (simp_all add: scanForUnusedAssets_def scan_failed_def Let_def)
    then show ?thesis by (rule fin)
  next
    case second
    then have "st' = st\<lparr>totalAssets := length inventory,
        message := Msg_scan_error (error_message e ''Scan failed''),
        isScanning := False, scanProgress := 0\<rparr>"
      and "eff = no_effects\<lparr>queries := qs,
        callbacks := [OnError (error_message e ''Scan failed'')]\<rparr>"
      unfolding tf_def st'_def eff_def
      by (simp_all add: scanForUnusedAssets_def scan_failed_def Let_def)
    then show ?thesis by (rule fin)
  next
    case third
    then have "st' = st\<lparr>totalAssets := length inventory,
        message := Msg_scan_error (error_message e ''Scan failed''),
        isScanning := False, scanProgress := 0\<rparr>"
      and "eff = no_effects\<lparr>queries := qs,
        callbacks := [OnError (error_message e ''Scan failed'')]\<rparr>"
      unfolding tf_def st'_def eff_def
      by (simp_all add: scanForUnusedAssets_def scan_failed_def Let_def)
    then show ?thesis by (rule fin)
  qed
qed

text \<open>
  The reference query times out after the inventory was read: the five candidates and the
  selection of before are kept, and the third query is never issued.
\<close>

theorem C7_witness:
  "unusedAssets (fst (scanForUnusedAssets lib_none default_props
       (client_of (Inr []) (Inl (Error_obj ''timeout'')) (Inr []) (fails_at 0))
       (selected_state five_assets [''A'']))) = five_assets
   \<and> selectedAssets (fst (scanForUnusedAssets lib_none default_props
       (client_of (Inr []) (Inl (Error_obj ''timeout'')) (Inr []) (fails_at 0))
       (selected_state five_assets [''A'']))) = [''A'']
   \<and> callbacks (snd (scanForUnusedAssets lib_none default_props
       (client_of (Inr []) (Inl (Error_obj ''timeout'')) (Inr []) (fails_at 0))
       (selected_state five_assets [''A'']))) = [OnError ''timeout'']
   \<and> length (queries (snd (scanForUnusedAssets lib_none default_props
       (client_of (Inr []) (Inl (Error_obj ''timeout'')) (Inr []) (fails_at 0))
       (selected_state five_assets [''A''])))) = 2"
proof -
  let ?cl = "client_of (Inr []) (Inl (Error_obj ''timeout'')) (Inr []) (fails_at 0)"
  let ?tf = "type_filter (assetTypes default_props)"
  let ?qs = "[All_assets_query ?tf (maxAssets default_props), Referenced_assets_query ?tf]"
  have "(\<exists>inventory. fetch_all_assets ?cl ?tf (maxAssets default_props) = Inr inventory)
       \<and> fetch_referenced ?cl ?tf = Inl (Error_obj ''timeout'') \<and> ?qs = ?qs"
    by (simp add: client_of_def)
  then show ?thesis
    using C7_scan_failure [where cl = ?cl and p = default_props and e = "Error_obj ''timeout''"
        and qs = ?qs and lib = lib_none and st = "selected_state five_assets [''A'']"]
    by (simp add: selected_state_def error_message_def)
qed

subsection \<open>C8: the filter is determined by its four inputs\<close>

text \<open>
  Claim C8. The unused-set filter is deterministic: two scans that read the same
  inventory and the same set of referenced identifiers, with the same exclude patterns and
  the same age cutoff, yield the same candidate list in the same order, whatever else
  differs (the state before, the client, the other options, the documents the
  references were read from). If \<open>new RegExp\<close> throws inside the filter, both scans fail
  with the same message and keep their lists. Filtering the candidate list once more with
  the same inputs gives it back.
\<close>

theorem C8_filter_deterministic:
  assumes "fetch_all_assets cl (type_filter (assetTypes p)) (maxAssets p) = Inr inventory"
    and "fetch_all_assets cl' (type_filter (assetTypes p')) (maxAssets p') = Inr inventory"
    and "fetch_referenced cl (type_filter (assetTypes p)) = Inr docs"
    and "fetch_referenced cl' (type_filter (assetTypes p')) = Inr docs'"
    and "fetch_complex cl = Inr cdocs"
    and "fetch_complex cl' = Inr cdocs'"
    and "referenced_ids docs cdocs = referenced_ids docs' cdocs'"
    and "excludePatterns p = excludePatterns p'"
    and "olderThan p = olderThan p'"
  shows "case filter_unused lib (excludePatterns p) (olderThan p) (referenced_ids docs cdocs)
                inventory of
           Inr cands \<Rightarrow>
             unusedAssets (fst (scanForUnusedAssets lib p cl st)) = cands
             \<and> unusedAssets (fst (scanForUnusedAssets lib p' cl' st')) = cands
             \<and> filter_unused lib (excludePatterns p) (olderThan p) (referenced_ids docs cdocs)
                  cands = Inr cands
         | Inl e \<Rightarrow>
             callbacks (snd (scanForUnusedAssets lib p cl st)) =
               [OnError (error_message e ''Scan failed'')]
             \<and> callbacks (snd (scanForUnusedAssets lib p' cl' st')) =
               [OnError (error_message e ''Scan failed'')]
             \<and> unusedAssets (fst (scanForUnusedAssets lib p cl st)) = unusedAssets st
             \<and> unusedAssets (fst (scanForUnusedAssets lib p' cl' st')) = unusedAssets st'"
proof (cases "filter_unused lib (excludePatterns p) (olderThan p) (referenced_ids docs cdocs)
                inventory")
  case (Inl e)
  with assms show ?thesis
    by (simp add: scanForUnusedAssets_def scan_failed_def no_effects_def Let_def)
next
  case (Inr cands)
  then have "filter_unused lib (excludePatterns p) (olderThan p) (referenced_ids docs cdocs)
      cands = Inr cands"
    by (rule filter_unused_again)
  with Inr assms show ?thesis
    by (simp add: scanForUnusedAssets_def scan_failed_def no_effects_def Let_def)
qed

text \<open>
  Two scans of the scenario's inventory: the second one starts from another state, with
  other options, and reads the reference to B from other documents. Both find A.
\<close>

theorem C8_witness:
  "unusedAssets (fst (scanForUnusedAssets lib_none
       (default_props\<lparr>olderThan := Some (Some 23), excludePatterns := [''hero-*'']\<rparr>)
       (client_of (Inr scenario_inventory) (Inr [Some [''B'']]) (Inr []) (fails_at 0))
       initial_state)) = [asset_of ''A'' (Some ''a.jpg'') (Some 2097152) (Some 20)]
   \<and> unusedAssets (fst (scanForUnusedAssets lib_none
       (default_props\<lparr>olderThan := Some (Some 23), excludePatterns := [''hero-*''],
                       assetTypes := [Image], maxAssets := 4\<rparr>)
       (client_of (Inr scenario_inventory) (Inr [None])
          (Inr [\<lparr>complexRefs = Some [None, Some ''B''], contentRefs = None,
                 blockRefs = Some [Some []]\<rparr>]) (fails_at 1))
       (selected_state five_assets [''C'']))) =
     [asset_of ''A'' (Some ''a.jpg'') (Some 2097152) (Some 20)]"
proof -
  let ?p = "default_props\<lparr>olderThan := Some (Some 23), excludePatterns := [''hero-*'']\<rparr>"
  let ?p' = "default_props\<lparr>olderThan := Some (Some 23), excludePatterns := [''hero-*''],
                       assetTypes := [Image], maxAssets := 4\<rparr>"
  let ?cl = "client_of (Inr scenario_inventory) (Inr [Some [''B'']]) (Inr []) (fails_at 0)"
  let ?cdocs' = "[\<lparr>complexRefs = Some [None, Some ''B''], contentRefs = None,
                 blockRefs = Some [Some []]\<rparr>]"
  let ?cl' = "client_of (Inr scenario_inventory) (Inr [None]) (Inr ?cdocs') (fails_at 1)"
  have refs: "referenced_ids [Some [''B'']] [] = {''B''}"
    by (simp add: referenced_ids_def)
  have refs': "referenced_ids [None] ?cdocs' = {''B''}"
    by (simp add: referenced_ids_def truthy_ids_def)
  have f: "filter_unused lib_none (excludePatterns ?p) (olderThan ?p) {''B''} scenario_inventory =
      Inr [asset_of ''A'' (Some ''a.jpg'') (Some 2097152) (Some 20)]"
    by (simp add: scenario_inventory_def asset_of_def keep_asset_def isExcluded_def
        isOlderThan_def new_RegExp_i_def filename_of_def date_less_def canonicalize_def
        line_terminator_def syntax_character_def default_props_def)
  show ?thesis
    using C8_filter_deterministic [where cl = ?cl and cl' = ?cl' and p = ?p and p' = ?p'
        and inventory = scenario_inventory and docs = "[Some [''B'']]" and docs' = "[None]"
        and cdocs = "[]" and cdocs' = ?cdocs' and lib = lib_none and st = initial_state
        and st' = "selected_state five_assets [''C'']"] f
    by (simp add: client_of_def refs refs')
qed

subsection \<open>C1: one failing batch\<close>

text \<open>
  Claim C1. A non-empty selection is partitioned into consecutive batches of the
  configured size (\<open>batches\<close>, in the selection's order). If the commit of exactly batch
  \<open>k\<close> (counted from 0) fails and every other one succeeds, the run completes and reports:
  a deleted count of the number of selected identifiers minus the size of batch \<open>k\<close>; a
  saved space that is the sum over all batches but batch \<open>k\<close>; exactly one error, which
  names the batch by its 1-based number \<open>k + 1\<close>. The loop goes on after the failure: a
  transaction is opened for every batch.
\<close>

theorem C1_partial_failure:
  fixes p :: props and cl :: client and st :: state and k :: nat and e :: thrown
  defines "sel \<equiv> selectedAssets st"
  defines "bs \<equiv> batches (batchSize p) (selectedAssets st)"
  assumes "0 < batchSize p" and "\<not> dryRun p" and "sel \<noteq> []" and "k < length bs"
    and "\<forall>j < length bs.
           transaction cl j (bs ! j) = (if j = k then Commit_failed e else Committed)"
  shows "\<exists>st' eff. handleDelete p cl st = Some (st', eff)
     \<and> callbacks eff =
         [OnComplete (length sel - length (bs ! k))
            (sum_list (map (batch_bytes (unusedAssets st)) (take k bs @ drop (Suc k) bs)))
            [batch_error (k + 1) (error_message e ''Unknown error'')]]
     \<and> transactions eff = bs
     \<and> concat bs = sel"
proof -
  from assms(3) have cc: "concat bs = sel" unfolding bs_def sel_def by (rule concat_batches)
  from assms(7) have out: "\<And>j. j < length bs \<Longrightarrow>
      transaction cl j (bs ! j) = (if j = k then Commit_failed e else Committed)" by blast
  from run_batches_one_failure [OF assms(6) assms(3) out, of "unusedAssets st" "length sel"]
  obtain pm where run: "run_batches False (batchSize p) cl (unusedAssets st) (length sel) 0 bs run0 =
           Inr (run0\<lparr>opened := bs,
                  deletedCount := length (concat bs) - length (bs ! k),
                  savedSpace := sum_list (map (batch_bytes (unusedAssets st)) (take k bs @ drop (Suc k) bs)),
                  errors := [batch_error (k + 1) (error_message e ''Unknown error'')],
                  progress := pm\<rparr>)" by blast
  from assms(5) have ne: "selectedAssets st \<noteq> []" by (simp add: sel_def)
  from run assms(4) have "run_batches (dryRun p) (batchSize p) cl (unusedAssets st)
      (length (selectedAssets st)) 0 (batches (batchSize p) (selectedAssets st)) run0 =
           Inr (run0\<lparr>opened := bs,
                  deletedCount := length (concat bs) - length (bs ! k),
                  savedSpace := sum_list (map (batch_bytes (unusedAssets st)) (take k bs @ drop (Suc k) bs)),
                  errors := [batch_error (k + 1) (error_message e ''Unknown error'')],
                  progress := pm\<rparr>)"
    by (simp add: bs_def sel_def)
  from handleDelete_completed [OF assms(3) ne this] cc show ?thesis
    by (simp add: run_effects_def no_effects_def)
qed

text \<open>
  The scenario of the specification: A to E selected, batch size 2, the batch [C, D]
  fails. Three assets are counted as deleted, with their sizes 10 + 20 + 50.
\<close>

theorem C1_witness:
  "\<exists>st' eff.
     handleDelete (default_props\<lparr>batchSize := 2\<rparr>) (deleting_client (fails_at 1))
       (selected_state five_assets [''A'', ''B'', ''C'', ''D'', ''E'']) = Some (st', eff)
     \<and> callbacks eff = [OnComplete 3 80 [''Batch 2: boom'']]
     \<and> transactions eff = [[''A'', ''B''], [''C'', ''D''], [''E'']]"
proof -
  let ?p = "default_props\<lparr>batchSize := 2\<rparr>"
  let ?cl = "deleting_client (fails_at 1)"
  let ?st = "selected_state five_assets [''A'', ''B'', ''C'', ''D'', ''E'']"
  let ?bs = "[[''A'', ''B''], [''C'', ''D''], [''E'']]"
  have sel: "selectedAssets ?st = [''A'', ''B'', ''C'', ''D'', ''E'']" and U: "unusedAssets ?st = five_assets"
    and n: "batchSize ?p = 2"
    by (simp_all add: default_props_def selected_state_def)
  have bs: "batches 2 [''A'', ''B'', ''C'', ''D'', ''E''] = ?bs"
    by (simp add: batches.simps)
  have h1: "0 < batchSize ?p" "\<not> dryRun ?p" "selectedAssets ?st \<noteq> []"
    by (simp_all add: default_props_def selected_state_def)
  have h2: "1 < length (batches (batchSize ?p) (selectedAssets ?st))"
    by (simp add: sel n bs)
  have h3: "\<forall>j < length (batches (batchSize ?p) (selectedAssets ?st)).
      transaction ?cl j (batches (batchSize ?p) (selectedAssets ?st) ! j) =
        (if j = 1 then Commit_failed (Error_obj ''boom'') else Committed)"
    by (simp add: deleting_client_def client_of_def fails_at_def)
  have count: "length [''A'', ''B'', ''C'', ''D'', ''E''] - length (?bs ! 1) = 3"
    by simp
  have bytes: "sum_list (map (batch_bytes five_assets) (take 1 ?bs @ drop (Suc 1) ?bs)) = 80"
    by (simp add: batch_bytes_def sum_sizes_def size_or_0_def five_assets_def asset_of_def)
  have msg: "batch_error (1 + 1) (error_message (Error_obj ''boom'') ''Unknown error'') =
      ''Batch 2: boom''"
    by (simp add: batch_error_def decimal_digits error_message_def)
  from C1_partial_failure [OF h1 h2 h3] show ?thesis
    unfolding sel U n bs count bytes msg by blast
qed

subsection \<open>C3: the dry run\<close>

text \<open>
  Claim C3, as stated: a dry run of a non-empty selection reports a nonzero saved space.
  The saved space is the sum of the known sizes, which is 0 for a selected asset of size
  0 (or of unknown size).
\<close>

theorem C3_counterexample:
  "map_option (callbacks \<circ> snd)
     (handleDelete (default_props\<lparr>dryRun := True\<rparr>) (deleting_client (fails_at 0))
        (selected_state [asset_of ''A'' (Some ''a.jpg'') (Some 0) (Some 20)] [''A''])) =
   Some [OnComplete 1 0 []]"
proof -
  let ?p = "default_props\<lparr>dryRun := True\<rparr>"
  let ?st = "selected_state [asset_of ''A'' (Some ''a.jpg'') (Some 0) (Some 20)] [''A'']"
  have h: "0 < batchSize ?p" "selectedAssets ?st \<noteq> []"
    by (simp_all add: default_props_def selected_state_def)
  have "run_batches (dryRun ?p) (batchSize ?p) (deleting_client (fails_at 0)) (unusedAssets ?st)
      (length (selectedAssets ?st)) 0 (batches (batchSize ?p) (selectedAssets ?st)) run0 =
    Inr (run0\<lparr>printed := [[''A'']], deletedCount := 1, savedSpace := 0\<rparr>)"
    by (simp add: default_props_def selected_state_def batches.simps process_batch_def run0_def
        batch_bytes_def sum_sizes_def size_or_0_def asset_of_def)
  from handleDelete_completed [OF h this] show ?thesis
    by (simp add: run0_def)
qed

text \<open>
  Claim C3, amended. A dry run of a non-empty selection (batch size at least 1) opens no
  transaction, and still reports a result: the deleted count is the number of selected
  identifiers, hence not 0, and the saved space is the sum of the known sizes of the
  selected candidates, which is not 0 exactly when a selected candidate has a size other
  than 0. The selection is a set, so no identifier occurs twice in it.
\<close>

theorem C3_dry_run:
  assumes "0 < batchSize p" and "dryRun p" and "selectedAssets st \<noteq> []"
    and "distinct (selectedAssets st)"
  shows "\<exists>st' eff. handleDelete p cl st = Some (st', eff)
     \<and> transactions eff = []
     \<and> console eff = batches (batchSize p) (selectedAssets st)
     \<and> callbacks eff =
         [OnComplete (length (selectedAssets st))
            (sum_sizes (filter (\<lambda>a. asset_id a \<in> set (selectedAssets st)) (unusedAssets st)))
            []]
     \<and> 0 < length (selectedAssets st)
     \<and> (0 < sum_sizes (filter (\<lambda>a. asset_id a \<in> set (selectedAssets st)) (unusedAssets st))
          \<longleftrightarrow> (\<exists>a \<in> set (unusedAssets st).
                 asset_id a \<in> set (selectedAssets st) \<and> 0 < size_or_0 a))"
proof -
  let ?bs = "batches (batchSize p) (selectedAssets st)"
  let ?U = "unusedAssets st"
  from assms(1) have cc: "concat ?bs = selectedAssets st" by (rule concat_batches)
  with assms(4) have "distinct (concat ?bs)" by simp
  then have "sum_list (map (batch_bytes ?U) ?bs) = batch_bytes ?U (concat ?bs)"
    by (rule sum_batch_bytes)
  with cc have bytes: "sum_list (map (batch_bytes ?U) ?bs) =
      sum_sizes (filter (\<lambda>a. asset_id a \<in> set (selectedAssets st)) ?U)"
    by (simp add: batch_bytes_def)
  have "run_batches (dryRun p) (batchSize p) cl ?U (length (selectedAssets st)) 0 ?bs run0 =
      Inr (run0\<lparr>printed := printed run0 @ ?bs,
            deletedCount := deletedCount run0 + length (concat ?bs),
            savedSpace := savedSpace run0 + sum_list (map (batch_bytes ?U) ?bs)\<rparr>)"
    using assms(2) by (simp add: run_batches_dry)
  from handleDelete_completed [OF assms(1) assms(3) this] cc bytes assms(3)
    batch_bytes_pos [of ?U "selectedAssets st"]
  show ?thesis
    by (simp add: run_effects_def no_effects_def run0_def batch_bytes_def)
qed

text \<open>A dry run for A and C of the five assets: 2 assets, 10 + 30 bytes, no transaction.\<close>

theorem C3_witness:
  "\<exists>st' eff.
     handleDelete (default_props\<lparr>dryRun := True\<rparr>) (deleting_client (fails_at 0))
       (selected_state five_assets [''A'', ''C'']) = Some (st', eff)
     \<and> transactions eff = []
     \<and> callbacks eff = [OnComplete 2 40 []]"
proof -
  let ?p = "default_props\<lparr>dryRun := True\<rparr>"
  let ?st = "selected_state five_assets [''A'', ''C'']"
  have sel: "selectedAssets ?st = [''A'', ''C'']" and U: "unusedAssets ?st = five_assets"
    by (simp_all add: selected_state_def)
  have h: "0 < batchSize ?p" "dryRun ?p" "selectedAssets ?st \<noteq> []"
    "distinct (selectedAssets ?st)"
    by (simp_all add: default_props_def selected_state_def)
  have count: "length [''A'', ''C''] = 2"
    by simp
  have bytes: "sum_sizes (filter (\<lambda>a. asset_id a \<in> set [''A'', ''C'']) five_assets) = 40"
    by (simp add: sum_sizes_def size_or_0_def five_assets_def asset_of_def)
  from C3_dry_run [OF h, of "deleting_client (fails_at 0)"] show ?thesis
    unfolding sel U count bytes by blast
qed

subsection \<open>C4: the candidate list after a deletion run\<close>

text \<open>
  Claim C4, as stated: the candidate list afterwards is the list before minus the
  successfully processed identifiers, those of failed batches not among them. The code
  removes every selected asset. Here the only batch fails: nothing was deleted (the
  deleted count is 0), and the candidate A is gone from the list all the same.
\<close>

theorem C4_counterexample:
  "map_option (unusedAssets \<circ> fst)
     (handleDelete default_props (deleting_client (fails_at 0))
        (selected_state [asset_of ''A'' (Some ''a.jpg'') (Some 7) (Some 20)] [''A''])) = Some []
   \<and> map_option (callbacks \<circ> snd)
     (handleDelete default_props (deleting_client (fails_at 0))
        (selected_state [asset_of ''A'' (Some ''a.jpg'') (Some 7) (Some 20)] [''A''])) =
     Some [OnComplete 0 0 [''Batch 1: boom'']]"
proof -
  let ?p = "default_props"
  let ?st = "selected_state [asset_of ''A'' (Some ''a.jpg'') (Some 7) (Some 20)] [''A'']"
  have h: "0 < batchSize ?p" "selectedAssets ?st \<noteq> []"
    by (simp_all add: default_props_def selected_state_def)
  have msg: "batch_error (0 div 10 + 1) (error_message (Error_obj ''boom'') ''Unknown error'') =
      ''Batch 1: boom''"
    by (simp add: batch_error_def decimal_digits error_message_def)
  have "run_batches (dryRun ?p) (batchSize ?p) (deleting_client (fails_at 0)) (unusedAssets ?st)
      (length (selectedAssets ?st)) 0 (batches (batchSize ?p) (selectedAssets ?st)) run0 =
    Inr (run0\<lparr>opened := [[''A'']],
           errors := [batch_error (0 div 10 + 1)
                        (error_message (Error_obj ''boom'') ''Unknown error'')]\<rparr>)"
    by (simp add: default_props_def selected_state_def batches.simps process_batch_def run0_def
        deleting_client_def client_of_def fails_at_def del: div_0)
  from handleDelete_completed [OF h this] show ?thesis
    unfolding msg by (simp add: selected_state_def asset_of_def run0_def)
qed

text \<open>
  Claim C4, amended. After a deletion run that completes, that is, one that hands its
  result to the completion callback, every selected identifier is removed from the
  candidate list and from the selection: the candidate list afterwards is the list before
  minus the selected identifiers, those of failed batches among them, and the selection
  is empty. A dry run behaves the same. This holds whether the callback returns or
  throws. There are such runs: a run with a selection completes when the batch size is at
  least 1 and it is a dry run or no exception is thrown while a transaction is built.
\<close>

theorem C4_after_deletion:
  "(handleDelete_with onComplete p cl st = Some (st', eff)
      \<and> (\<exists>d s es. OnComplete d s es \<in> set (callbacks eff)) \<longrightarrow>
      unusedAssets st' =
        filter (\<lambda>a. asset_id a \<notin> set (selectedAssets st)) (unusedAssets st)
      \<and> selectedAssets st' = [])
   \<and> (0 < batchSize p \<and> selectedAssets st \<noteq> []
        \<and> (dryRun p \<or> (\<forall>n b e. transaction cl n b \<noteq> Build_failed e)) \<longrightarrow>
      (\<exists>st' eff d s es. handleDelete_with onComplete p cl st = Some (st', eff)
          \<and> OnComplete d s es \<in> set (callbacks eff)))"
proof -
  have a: "unusedAssets st' =
        filter (\<lambda>a. asset_id a \<notin> set (selectedAssets st)) (unusedAssets st)
      \<and> selectedAssets st' = []"
    if "handleDelete_with onComplete p cl st = Some (st', eff)"
      and "\<exists>d s es. OnComplete d s es \<in> set (callbacks eff)"
    using that handleDelete_with_completed [of onComplete p cl st st' eff] by blast
  have b: "\<exists>st' eff d s es. handleDelete_with onComplete p cl st = Some (st', eff)
          \<and> OnComplete d s es \<in> set (callbacks eff)"
    if pos: "0 < batchSize p" and ne: "selectedAssets st \<noteq> []"
      and ok: "dryRun p \<or> (\<forall>n b e. transaction cl n b \<noteq> Build_failed e)"
  proof -
    let ?bs = "batches (batchSize p) (selectedAssets st)"
    have "\<exists>r. run_batches (dryRun p) (batchSize p) cl (unusedAssets st)
        (length (selectedAssets st)) 0 ?bs run0 = Inr r"
    proof (cases "dryRun p")
      case True
      then show ?thesis by (simp add: run_batches_dry)
    next
      case False
      with ok have "\<And>m e. m < length ?bs \<Longrightarrow>
          transaction cl (length (opened run0) + m) (?bs ! m) \<noteq> Build_failed e" by blast
      from run_batches_no_abort [OF this, of "batchSize p" "unusedAssets st"
          "length (selectedAssets st)" 0] False show ?thesis by auto
    qed
    then obtain r where "run_batches (dryRun p) (batchSize p) cl (unusedAssets st)
        (length (selectedAssets st)) 0 ?bs run0 = Inr r" by blast
    from handleDelete_with_completes [OF pos ne this, of onComplete] show ?thesis by blast
  qed
  from a b show ?thesis by blast
qed

text \<open>
  A, C and D of the five assets are selected, in batches of 2; the batch [A, C] fails,
  and the completion callback throws. B and E remain, and nothing is selected.
\<close>

theorem C4_witness:
  "\<exists>st' eff.
     handleDelete_with throwing_callback (default_props\<lparr>batchSize := 2\<rparr>)
       (deleting_client (fails_at 0)) (selected_state five_assets [''A'', ''C'', ''D'']) =
       Some (st', eff)
     \<and> map asset_id (unusedAssets st') = [''B'', ''E'']
     \<and> selectedAssets st' = []"
proof -
  let ?p = "default_props\<lparr>batchSize := 2\<rparr>"
  let ?cl = "deleting_client (fails_at 0)"
  let ?st = "selected_state five_assets [''A'', ''C'', ''D'']"
  have h: "0 < batchSize ?p \<and> selectedAssets ?st \<noteq> []
      \<and> (dryRun ?p \<or> (\<forall>n b e. transaction ?cl n b \<noteq> Build_failed e))"
    by (simp add: default_props_def selected_state_def deleting_client_def client_of_def
        fails_at_def)
  from C4_after_deletion [where p = ?p and cl = ?cl and st = ?st
      and onComplete = throwing_callback, THEN conjunct2, THEN mp, OF h]
  obtain st' eff d s es where r:
    "handleDelete_with throwing_callback ?p ?cl ?st = Some (st', eff)"
    "OnComplete d s es \<in> set (callbacks eff)"
    by blast
  with C4_after_deletion [where p = ?p and cl = ?cl and st = ?st and st' = st' and eff = eff
      and onComplete = throwing_callback]
  have "unusedAssets st' =
      filter (\<lambda>a. asset_id a \<notin> set (selectedAssets ?st)) (unusedAssets ?st)
    \<and> selectedAssets st' = []"
    by blast
  with r(1) show ?thesis
    by (simp add: selected_state_def five_assets_def asset_of_def)
qed

subsection \<open>C9: the loop terminates, and its batches\<close>

text \<open>
  Claim C9. With a batch size of at least 1 the deletion run returns for every selection
  and every client. The \<open>n\<close> selected identifiers are partitioned into \<open>\<lceil>n / batchSize\<rceil>\<close>
  consecutive batches in the selection's order: batch \<open>j\<close> is the slice of \<open>batchSize\<close>
  identifiers from position \<open>j * batchSize\<close>, every batch but the last is full, and none is
  empty. These are the batches the loop processes (printed by a dry run, given to a
  transaction otherwise) unless an exception outside the per-batch guard ends it.
\<close>

theorem C9_batching_terminates:
  fixes p :: props and cl :: client and st :: state
  defines "n \<equiv> batchSize p"
  defines "sel \<equiv> selectedAssets st"
  defines "bs \<equiv> batches (batchSize p) (selectedAssets st)"
  assumes "0 < batchSize p"
  shows "(\<exists>out. handleDelete p cl st = Some out)
     \<and> (dryRun p \<or> (\<forall>m b e. transaction cl m b \<noteq> Build_failed e) \<longrightarrow>
          (\<exists>st' eff. handleDelete p cl st = Some (st', eff)
             \<and> (if dryRun p then console eff else transactions eff) = bs))
     \<and> concat bs = sel
     \<and> length bs = (length sel + n - 1) div n
     \<and> (\<forall>j < length bs. bs ! j = take n (drop (j * n) sel))
     \<and> (\<forall>j. Suc j < length bs \<longrightarrow> length (bs ! j) = n)
     \<and> (\<forall>b \<in> set bs. 0 < length b \<and> length b \<le> n)"
proof -
  have t: "\<exists>out. handleDelete p cl st = Some out"
    using assms(4) by (rule handleDelete_terminates)
  have r: "\<exists>st' eff. handleDelete p cl st = Some (st', eff)
             \<and> (if dryRun p then console eff else transactions eff) = bs"
    if ok: "dryRun p \<or> (\<forall>m b e. transaction cl m b \<noteq> Build_failed e)"
  proof (cases "selectedAssets st = []")
    case True
    then show ?thesis
      by (simp add: handleDelete_def handleDelete_with_def no_effects_def bs_def)
  next
    case ne: False
    show ?thesis
    proof (cases "dryRun p")
      case True
      then have "run_batches (dryRun p) (batchSize p) cl (unusedAssets st)
          (length (selectedAssets st)) 0 (batches (batchSize p) (selectedAssets st)) run0 =
        Inr (run0\<lparr>printed := printed run0 @ bs,
              deletedCount := deletedCount run0 + length (concat bs),
              savedSpace := savedSpace run0 + sum_list (map (batch_bytes (unusedAssets st)) bs)\<rparr>)"
        by (simp add: run_batches_dry bs_def)
      from handleDelete_completed [OF assms(4) ne this] True show ?thesis
        by (simp add: run_effects_def no_effects_def run0_def)
    next
      case False
      with ok have "\<And>m e. m < length bs \<Longrightarrow>
          transaction cl (length (opened run0) + m) (bs ! m) \<noteq> Build_failed e" by blast
      from run_batches_no_abort [OF this, of "batchSize p" "unusedAssets st"
          "length (selectedAssets st)" 0]
      obtain r' where "run_batches False (batchSize p) cl (unusedAssets st)
          (length (selectedAssets st)) 0 bs run0 = Inr r'" "opened r' = opened run0 @ bs"
        by blast
      with False have "run_batches (dryRun p) (batchSize p) cl (unusedAssets st)
          (length (selectedAssets st)) 0 (batches (batchSize p) (selectedAssets st)) run0 = Inr r'"
        and o: "opened r' = bs" by (simp_all add: bs_def run0_def)
      from handleDelete_completed [OF assms(4) ne this(1)] False o show ?thesis
        by (simp add: run_effects_def no_effects_def)
    qed
  qed
  have "concat bs = sel" "length bs = (length sel + n - 1) div n"
    using assms(4) by (simp_all add: bs_def sel_def n_def concat_batches length_batches)
  moreover have "\<forall>j < length bs. bs ! j = take n (drop (j * n) sel)"
    using assms(4) by (simp add: bs_def sel_def n_def nth_batches)
  moreover have "\<forall>j. Suc j < length bs \<longrightarrow> length (bs ! j) = n"
    using assms(4) by (simp add: bs_def sel_def n_def batch_full)
  moreover have "\<forall>b \<in> set bs. 0 < length b \<and> length b \<le> n"
    using batch_nonempty [of _ "batchSize p" "selectedAssets st"]
    by (auto simp: bs_def n_def)
  ultimately show ?thesis using t r by blast
qed

text \<open>Five identifiers in batches of 2 are 3 batches; the run returns.\<close>

theorem C9_witness:
  "(\<exists>out. handleDelete (default_props\<lparr>batchSize := 2\<rparr>) (deleting_client (fails_at 1))
            (selected_state five_assets [''A'', ''B'', ''C'', ''D'', ''E'']) = Some out)
   \<and> length (batches 2 [''A'', ''B'', ''C'', ''D'', ''E'']) = 3
   \<and> concat (batches 2 [''A'', ''B'', ''C'', ''D'', ''E'']) = [''A'', ''B'', ''C'', ''D'', ''E'']"
proof -
  let ?p = "default_props\<lparr>batchSize := 2\<rparr>"
  have h: "0 < batchSize ?p"
    by (simp add: default_props_def)
  from C9_batching_terminates [OF h, of "deleting_client (fails_at 1)"
      "selected_state five_assets [''A'', ''B'', ''C'', ''D'', ''E'']"]
  show ?thesis
    by (simp add: default_props_def selected_state_def)
qed

subsection \<open>C5: the selection is a subset of the candidates\<close>

text \<open>
  Claim C5. In every state the component can reach, the selection is a subset of the
  identifiers of the candidate list: this holds initially and is kept by a scan (completed
  or failed), by toggling a candidate, by select-all, by clear, by a deletion run
  (completed, partly failed or ended by an exception) and by the view controls. In
  particular no identifier removed from the candidate list by a deletion run stays
  selected.
\<close>

theorem C5_selection_invariant:
  "reachable st \<Longrightarrow> set (selectedAssets st) \<subseteq> asset_id ` set (unusedAssets st)"
  using reachable_inv by blast

text \<open>After a scan that finds the five assets and a click on A, A is selected.\<close>

theorem C5_witness:
  "reachable (toggleAssetSelection ''A'' scanned_state)
   \<and> selectedAssets (toggleAssetSelection ''A'' scanned_state) = [''A'']
   \<and> set (selectedAssets (toggleAssetSelection ''A'' scanned_state))
       \<subseteq> asset_id ` set (unusedAssets (toggleAssetSelection ''A'' scanned_state))"
proof -
  have u: "unusedAssets scanned_state = five_assets" "selectedAssets scanned_state = []"
    by (simp_all add: scanned_state_def scanForUnusedAssets_def client_of_def Let_def
        default_props_def five_assets_def asset_of_def keep_asset_def isExcluded_def
        isOlderThan_def referenced_ids_def)
  have "reachable scanned_state"
    unfolding scanned_state_def by (rule reach_scan [OF reach_initial])
  then have r: "reachable (toggleAssetSelection ''A'' scanned_state)"
    by (rule reach_toggle) (simp add: u five_assets_def asset_of_def)
  from C5_selection_invariant [OF r] r show ?thesis
    by (simp add: toggleAssetSelection_def u)
qed

end
